theory Spec2Isabelle
  imports Main "HOL-Library.Sublist" "HOL-Library.Char_ord" "HOL-Library.List_Lexorder"
begin

section \<open>Strings\<close>

text \<open>
  A Go string is a sequence of bytes holding UTF-8 text; it is modelled as a
  \<^typ>\<open>string\<close>, a list of 8-bit characters.  \<open>strings.TrimSpace\<close> removes the white
  space runes of Unicode from both ends.  \<open>spaceRunes\<close> lists the UTF-8 encodings of
  exactly the runes for which \<open>unicode.IsSpace\<close> holds: the six ASCII ones, U+0085,
  U+00A0, U+1680, U+2000 to U+200A, U+2028, U+2029, U+202F, U+205F and U+3000.
\<close>

definition spaceRunes :: "string list" where
  "spaceRunes =
     [[CHR 0x09], [CHR 0x0A], [CHR 0x0B], [CHR 0x0C], [CHR 0x0D], [CHR 0x20],
      [CHR 0xC2, CHR 0x85], [CHR 0xC2, CHR 0xA0],
      [CHR 0xE1, CHR 0x9A, CHR 0x80],
      [CHR 0xE2, CHR 0x80, CHR 0x80], [CHR 0xE2, CHR 0x80, CHR 0x81],
      [CHR 0xE2, CHR 0x80, CHR 0x82], [CHR 0xE2, CHR 0x80, CHR 0x83],
      [CHR 0xE2, CHR 0x80, CHR 0x84], [CHR 0xE2, CHR 0x80, CHR 0x85],
      [CHR 0xE2, CHR 0x80, CHR 0x86], [CHR 0xE2, CHR 0x80, CHR 0x87],
      [CHR 0xE2, CHR 0x80, CHR 0x88], [CHR 0xE2, CHR 0x80, CHR 0x89],
      [CHR 0xE2, CHR 0x80, CHR 0x8A],
      [CHR 0xE2, CHR 0x80, CHR 0xA8], [CHR 0xE2, CHR 0x80, CHR 0xA9],
      [CHR 0xE2, CHR 0x80, CHR 0xAF],
      [CHR 0xE2, CHR 0x81, CHR 0x9F],
      [CHR 0xE3, CHR 0x80, CHR 0x80]]"

text \<open>
  \<open>trimPrefixes ps s\<close> removes leading occurrences of the sequences \<open>ps\<close> from \<open>s\<close>
  until none is a prefix: the loop of \<open>strings.TrimLeftFunc\<close>, one rune at a time.
\<close>

function trimPrefixes :: "string list \<Rightarrow> string \<Rightarrow> string" where
  "trimPrefixes ps s =
     (case List.find (\<lambda>p. p \<noteq> [] \<and> prefix p s) ps of
        None \<Rightarrow> s
      | Some p \<Rightarrow> trimPrefixes ps (drop (length p) s))"
  by pat_completeness auto
termination
proof (relation "measure (\<lambda>(ps, s). length s)")
  show "wf (measure (\<lambda>(ps, s). length s))" by simp
next
  fix ps :: "string list" and s p :: string
  assume "List.find (\<lambda>p. p \<noteq> [] \<and> prefix p s) ps = Some p"
  then have "p \<noteq> [] \<and> prefix p s"
    by (auto simp: find_Some_iff)
  then have "p \<noteq> []" and "length p \<le> length s"
    by (simp_all add: prefix_length_le)
  then show "((ps, drop (length p) s), (ps, s)) \<in> measure (\<lambda>(ps, s). length s)"
    by (cases p) simp_all
qed

declare trimPrefixes.simps [simp del]

definition trimLeft :: "string \<Rightarrow> string" where
  "trimLeft s = trimPrefixes spaceRunes s"

definition trimRight :: "string \<Rightarrow> string" where
  "trimRight s = rev (trimPrefixes (map rev spaceRunes) (rev s))"

definition TrimSpace :: "string \<Rightarrow> string" where
  "TrimSpace s = trimRight (trimLeft s)"

definition Contains :: "string \<Rightarrow> string \<Rightarrow> bool" where
  "Contains s sub = list_ex (\<lambda>i. prefix sub (drop i s)) [0 ..< Suc (length s)]"

section \<open>Data\<close>

text \<open>
  \<open>type User struct\<close>.  \<open>ID\<close> is an \<open>int64\<close>; it is only ever produced by the
  database, whose AUTOINCREMENT refuses to go beyond \<open>maxInt64\<close>, so it is an
  \<^typ>\<open>int\<close> here and the bound is written out in \<open>insertUser\<close>.
\<close>

record User =
  ID :: int
  Name :: string
  Email :: string

definition maxInt64 :: int where
  "maxInt64 = 2 ^ 63 - 1"

section \<open>The store\<close>

text \<open>
  \<open>type Store struct{ db *sql.DB }\<close>: one SQLite connection (\<open>SetMaxOpenConns(1)\<close>)
  on the table created by \<open>openStore\<close>:
  \<^verbatim>\<open>users(id INTEGER PRIMARY KEY AUTOINCREMENT, name TEXT NOT NULL,
        email TEXT NOT NULL, UNIQUE(name, email))\<close>
  \<open>rows\<close> is the table in rowid order, \<open>seq\<close> the AUTOINCREMENT counter of the table
  (the largest rowid ever handed out) and \<open>lastInsertId\<close> the connection's
  \<open>last_insert_rowid\<close>, which \<open>sql.Result.LastInsertId\<close> reads.
\<close>

record Store =
  rows :: "User list"
  seq :: int
  lastInsertId :: int

text \<open>
  A database call can fail (I/O error, expired context).  Whether it does is an input of
  the model: \<open>Some e\<close> is the driver's error \<open>e\<close>, and the statement then wrote nothing.
\<close>

type_synonym fault = "string option"

definition hasPair :: "string \<Rightarrow> string \<Rightarrow> User list \<Rightarrow> bool" where
  "hasPair n e us = ((n, e) \<in> set (map (\<lambda>u. (Name u, Email u)) us))"

text \<open>
  \<open>Store.insertUser\<close>: \<open>INSERT OR IGNORE INTO users(name,email) VALUES(?,?)\<close> on the
  trimmed fields, then \<open>res.LastInsertId()\<close>.  AUTOINCREMENT picks \<open>seq + 1\<close> and fails
  with SQLITE_FULL once the largest rowid was used (the driver's error text carries the
  result code 13); a row that violates
  \<open>UNIQUE(name, email)\<close> is skipped without error, and then \<open>last_insert_rowid\<close>
  keeps its old value (the counter has already moved).
\<close>

definition insertUser :: "fault \<Rightarrow> string \<Rightarrow> string \<Rightarrow> Store \<Rightarrow> (string + int) \<times> Store" where
  "insertUser f name email s =
     (case f of
        Some err \<Rightarrow> (Inl err, s)
      | None \<Rightarrow>
          let n = TrimSpace name; e = TrimSpace email in
          if maxInt64 \<le> seq s then (Inl ''database or disk is full (13)'', s)
          else if hasPair n e (rows s)
            then (Inr (lastInsertId s), s\<lparr>seq := seq s + 1\<rparr>)
            else (Inr (seq s + 1),
                  s\<lparr>rows := rows s @ [\<lparr>ID = seq s + 1, Name = n, Email = e\<rparr>],
                    seq := seq s + 1, lastInsertId := seq s + 1\<rparr>))"

text \<open>\<open>Store.deleteUser\<close>: \<open>DELETE FROM users WHERE id=?\<close>.\<close>

definition deleteUser :: "fault \<Rightarrow> int \<Rightarrow> Store \<Rightarrow> fault \<times> Store" where
  "deleteUser f i s =
     (case f of
        Some err \<Rightarrow> (Some err, s)
      | None \<Rightarrow> (None, s\<lparr>rows := filter (\<lambda>u. ID u \<noteq> i) (rows s)\<rparr>))"

text \<open>
  \<open>Store.allUsers\<close>: \<open>SELECT id, name, email FROM users ORDER BY name COLLATE NOCASE\<close>.
  NOCASE compares byte strings after folding the 26 ASCII upper case letters; rows
  with equal keys are given in rowid order.  A failing query returns \<open>nil\<close> and the
  error.
\<close>

definition nocase :: "char \<Rightarrow> char" where
  "nocase c = (if CHR ''A'' \<le> c \<and> c \<le> CHR ''Z'' then char_of (of_char c + (32::nat)) else c)"

definition allUsers :: "fault \<Rightarrow> Store \<Rightarrow> User list \<times> fault" where
  "allUsers f s =
     (case f of
        Some err \<Rightarrow> ([], Some err)
      | None \<Rightarrow> (sort_key (\<lambda>u. map nocase (Name u)) (rows s), None))"

section \<open>The list items and their backing arrays\<close>

text \<open>
  \<open>type userItem User\<close>; \<open>FilterValue\<close> is \<open>u.Name + " <" + u.Email + ">"\<close>.
\<close>

definition FilterValue :: "User \<Rightarrow> string" where
  "FilterValue u = Name u @ '' <'' @ Email u @ ''>''"

text \<open>
  A Go slice \<open>[]list.Item\<close> is a view (pointer, length, capacity) of a backing array, and
  two slices may share one array: \<open>fl.view = fl.all\<close> copies the view, not the items.
  The heap is the list of the backing arrays allocated so far, a slice points to one of
  them by its position.  Every slice of the program starts at the first cell of its
  array (the only slicing is \<open>fl.view[:0]\<close>), and every cell the program stores is a
  \<open>userItem\<close>; cells between length and capacity hold \<open>zeroItem\<close> and are never read.
  The \<open>nil\<close> slice is \<open>nilSlice\<close>: nothing is read through it and appending to it allocates.
\<close>

type_synonym heap = "User list list"

record slice =
  ptr :: nat
  len :: nat
  cap :: nat

definition nilSlice :: slice where
  "nilSlice = \<lparr>ptr = 0, len = 0, cap = 0\<rparr>"

definition zeroItem :: User where
  "zeroItem = \<lparr>ID = 0, Name = [], Email = []\<rparr>"

definition cellsAt :: "heap \<Rightarrow> nat \<Rightarrow> User list" where
  "cellsAt h p = (if p < length h then h ! p else [])"

definition elems :: "heap \<Rightarrow> slice \<Rightarrow> User list" where
  "elems h s = take (len s) (cellsAt h (ptr s))"

text \<open>\<open>make([]list.Item, 0, n)\<close>: a fresh array of \<open>n\<close> cells.\<close>

definition makeSlice :: "nat \<Rightarrow> heap \<Rightarrow> slice \<times> heap" where
  "makeSlice n h = (\<lparr>ptr = length h, len = 0, cap = n\<rparr>, h @ [replicate n zeroItem])"

text \<open>
  \<open>append(s, x)\<close>: below capacity the item is written into the array \<open>s\<close> points to,
  whoever else shares it; at capacity the items move to a fresh, larger array (the
  run-time system doubles small capacities).
\<close>

definition growCap :: "nat \<Rightarrow> nat" where
  "growCap c = (if c = 0 then 1 else 2 * c)"

definition appendItem :: "slice \<Rightarrow> User \<Rightarrow> heap \<Rightarrow> slice \<times> heap" where
  "appendItem s x h =
     (if len s < cap s
      then (s\<lparr>len := len s + 1\<rparr>, h[ptr s := (cellsAt h (ptr s))[len s := x]])
      else (\<lparr>ptr = length h, len = len s + 1, cap = growCap (cap s)\<rparr>,
            h @ [elems h s @ [x] @ replicate (growCap (cap s) - (len s + 1)) zeroItem]))"

text \<open>
  The loop \<open>items := make([]list.Item, 0, len(users)); for _, u := range users
  { items = append(items, userItem(u)) }\<close> of \<open>initialModel\<close>, \<open>updateListKeys\<close>
  and \<open>updateFormKeys\<close>.
\<close>

definition appendAll :: "User list \<Rightarrow> slice \<times> heap \<Rightarrow> slice \<times> heap" where
  "appendAll xs sh = foldl (\<lambda>(s, h) x. appendItem s x h) sh xs"

definition toItems :: "User list \<Rightarrow> heap \<Rightarrow> slice \<times> heap" where
  "toItems users h = appendAll users (makeSlice (length users) h)"

section \<open>The widget library\<close>

text \<open>
  The program is built on the packages \<open>bubbletea\<close>, \<open>bubbles\<close> and \<open>fuzzy\<close>, which are
  not part of this repository.  What the program reads from them is modelled below;
  what happens inside their \<open>Update\<close> functions and the scoring of the fuzzy matcher
  are parameters of the model, collected in \<open>lib\<close>, so that every theorem holds for
  all behaviours of these parts.
\<close>

text \<open>
  A \<open>tea.Cmd\<close> as far as the event loop tells them apart: \<open>nil\<close>, \<open>tea.Quit\<close>, or a
  command of a widget.
\<close>

datatype Cmd = CmdNil | CmdQuit | CmdWidget

datatype KeyType =
  KeyRunes | KeyEnter | KeyEsc | KeyBackspace | KeyDelete | KeyCtrlC | KeyUp | KeyDown

record KeyMsg =
  Type :: KeyType
  Runes :: string
  Alt :: bool

text \<open>
  \<open>tea.KeyMsg.String\<close>, which \<open>key.Matches\<close> compares with the keys of a binding: the
  typed runes, or the name of the key, after \<open>alt+\<close> when Alt is held.
\<close>

definition keyString :: "KeyMsg \<Rightarrow> string" where
  "keyString k =
     (if Alt k then ''alt+'' else []) @
     (case Type k of
        KeyRunes \<Rightarrow> Runes k
      | KeyEnter \<Rightarrow> ''enter''
      | KeyEsc \<Rightarrow> ''esc''
      | KeyBackspace \<Rightarrow> ''backspace''
      | KeyDelete \<Rightarrow> ''delete''
      | KeyCtrlC \<Rightarrow> ''ctrl+c''
      | KeyUp \<Rightarrow> ''up''
      | KeyDown \<Rightarrow> ''down'')"

definition Matches :: "KeyMsg \<Rightarrow> string list \<Rightarrow> bool" where
  "Matches k binding = (keyString k \<in> set binding)"

text \<open>\<open>type keymap struct\<close> and \<open>newKeymap\<close>: the keys of each binding.\<close>

record keymap =
  Quit :: "string list"
  Add :: "string list"
  Edit :: "string list"
  Delete :: "string list"
  Global :: "string list"
  Local :: "string list"
  Filter :: "string list"
  Clear :: "string list"
  Help :: "string list"
  Enter :: "string list"

definition newKeymap :: keymap where
  "newKeymap =
     \<lparr>Quit = [''q'', ''ctrl+c''], Add = [''a''], Edit = [''e''],
      Delete = [''del'', ''backspace''], Global = [''g''], Local = [''l''],
      Filter = [''/''], Clear = [''esc''], Help = [''?''], Enter = [''enter'']\<rparr>"

text \<open>
  \<open>textinput.Model\<close>: the text and the focus flag.  The cursor inside the text is
  internal to the widget and not modelled.
\<close>

record textinput =
  val :: string
  focus :: bool

text \<open>
  \<open>SetValue\<close> passes the text through the sanitizer of the widget, rune by rune:
  an invalid byte and U+FFFD are dropped, carriage return, newline and tab become one
  space, every other control character (U+0000 to U+001F, U+007F to U+009F) is
  dropped.  \<open>runeWidth s\<close> is the number of bytes of the UTF-8 encoding \<open>s\<close> starts
  with, 0 when it starts with none.  The limit on the number of characters does not
  apply: \<open>SetValue\<close> is only called with the empty string or on a field without limit.
\<close>

definition cont :: "char \<Rightarrow> bool" where
  "cont c = (0x80 \<le> (of_char c :: nat) \<and> (of_char c :: nat) \<le> 0xBF)"

definition between :: "nat \<Rightarrow> char \<Rightarrow> nat \<Rightarrow> bool" where
  "between lo c hi = (lo \<le> (of_char c :: nat) \<and> (of_char c :: nat) \<le> hi)"

fun runeWidth :: "string \<Rightarrow> nat" where
  "runeWidth [] = 0"
| "runeWidth (a # s) =
     (if between 0x00 a 0x7F then 1
      else if between 0xC2 a 0xDF then
        (case s of b # _ \<Rightarrow> if cont b then 2 else 0 | _ \<Rightarrow> 0)
      else if between 0xE0 a 0xEF then
        (case s of
           b # c # _ \<Rightarrow>
             if (if a = CHR 0xE0 then between 0xA0 b 0xBF
                 else if a = CHR 0xED then between 0x80 b 0x9F else cont b) \<and> cont c
             then 3 else 0
         | _ \<Rightarrow> 0)
      else if between 0xF0 a 0xF4 then
        (case s of
           b # c # d # _ \<Rightarrow>
             if (if a = CHR 0xF0 then between 0x90 b 0xBF
                 else if a = CHR 0xF4 then between 0x80 b 0x8F else cont b) \<and> cont c \<and> cont d
             then 4 else 0
         | _ \<Rightarrow> 0)
      else 0)"

definition isControl :: "string \<Rightarrow> bool" where
  "isControl r =
     (case r of
        [a] \<Rightarrow> between 0x00 a 0x1F \<or> a = CHR 0x7F
      | [a, b] \<Rightarrow> a = CHR 0xC2 \<and> between 0x80 b 0x9F
      | _ \<Rightarrow> False)"

function Sanitize :: "string \<Rightarrow> string" where
  "Sanitize [] = []"
| "Sanitize (a # s) =
     (let w = runeWidth (a # s); r = take w (a # s) in
      if w = 0 \<or> r = [CHR 0xEF, CHR 0xBF, CHR 0xBD] then Sanitize (drop (w - 1) s)
      else if a = CHR 0x0D \<or> a = CHR 0x0A \<or> a = CHR 0x09 then CHR 0x20 # Sanitize s
      else if isControl r then Sanitize (drop (w - 1) s)
      else r @ Sanitize (drop (w - 1) s))"
  by pat_completeness auto
termination
  by (relation "measure length") auto

definition SetValue :: "string \<Rightarrow> textinput \<Rightarrow> textinput" where
  "SetValue v t = t\<lparr>val := Sanitize v\<rparr>"

definition Focus :: "textinput \<Rightarrow> textinput" where
  "Focus t = t\<lparr>focus := True\<rparr>"

definition Blur :: "textinput \<Rightarrow> textinput" where
  "Blur t = t\<lparr>focus := False\<rparr>"

text \<open>
  \<open>list.Model\<close>: the items shown and the position of the cursor among them.
  \<open>SelectedItem\<close> is the item under the cursor, \<open>nil\<close> when there is none; the type
  assertion \<open>.(userItem)\<close> on it fails exactly for \<open>nil\<close>.
\<close>

record listModel =
  items :: slice
  index :: nat

definition SelectedItem :: "heap \<Rightarrow> listModel \<Rightarrow> User option" where
  "SelectedItem h l =
     (if index l < length (elems h (items l)) then Some (elems h (items l) ! index l) else None)"

record lib =
  score :: "string \<Rightarrow> string \<Rightarrow> int"
  inputUpdate :: "KeyMsg \<Rightarrow> textinput \<Rightarrow> textinput"
  listUpdate :: "KeyMsg \<Rightarrow> nat \<Rightarrow> nat \<Rightarrow> nat \<times> Cmd"
  listSetItems :: "nat \<Rightarrow> nat \<Rightarrow> nat"

text \<open>
  \<open>score L q c\<close> is the score of candidate \<open>c\<close> for pattern \<open>q\<close>;
  \<open>inputUpdate L k t\<close> is \<open>t.Update(k)\<close> of a text input;
  \<open>listUpdate L k n i\<close> is the cursor after, and the command returned by,
  \<open>l.Update(k)\<close> on a list of \<open>n\<close> items with
  cursor \<open>i\<close>; \<open>listSetItems L n i\<close> is the cursor after \<open>SetItems\<close> with \<open>n\<close> items.
\<close>

text \<open>
  Modelled from the spec: \<open>fuzzy.Find\<close> of the package \<open>github.com/sahilm/fuzzy\<close>,
  which is not under src.  A pattern matches a candidate if every character of the
  pattern appears in the candidate in the same relative order; the matches are ordered
  by descending score, ties in the order of the corpus.  \<open>Find\<close> returns the field
  \<open>Index\<close> of each match, the only one \<open>fuzzyList.apply\<close> reads.
\<close>

fun subseqMatch :: "string \<Rightarrow> string \<Rightarrow> bool" where
  "subseqMatch [] c = True"
| "subseqMatch (q # qs) [] = False"
| "subseqMatch (q # qs) (c # cs) = (if q = c then subseqMatch qs cs else subseqMatch (q # qs) cs)"

definition Find :: "(string \<Rightarrow> string \<Rightarrow> int) \<Rightarrow> string \<Rightarrow> string list \<Rightarrow> nat list" where
  "Find sc q corpus =
     sort_key (\<lambda>i. - sc q (corpus ! i))
       (filter (\<lambda>i. subseqMatch q (corpus ! i)) [0 ..< length corpus])"

section \<open>The fuzzy filter\<close>

text \<open>\<open>type fuzzyList struct\<close>, with the methods \<open>setAll\<close> and \<open>apply\<close>.\<close>

record fuzzyList =
  all :: slice
  view :: slice
  query :: string

definition fuzzyApply :: "lib \<Rightarrow> string \<Rightarrow> fuzzyList \<Rightarrow> heap \<Rightarrow> fuzzyList \<times> heap" where
  "fuzzyApply L q fl h =
     (if TrimSpace q = []
      then (fl\<lparr>query := q, view := all fl\<rparr>, h)
      else
        let arr = map (\<lambda>it. (FilterValue it, it)) (elems h (all fl));
            corpus = map fst arr;
            matches = Find (score L) q corpus;
            (v, h') = foldl (\<lambda>(v, h) i. appendItem v (snd (arr ! i)) h)
                        ((view fl)\<lparr>len := 0\<rparr>, h) matches
        in (fl\<lparr>query := q, view := v\<rparr>, h'))"

definition setAll :: "lib \<Rightarrow> slice \<Rightarrow> fuzzyList \<Rightarrow> heap \<Rightarrow> fuzzyList \<times> heap" where
  "setAll L its fl h = fuzzyApply L [] (fl\<lparr>all := its\<rparr>) h"

section \<open>The session\<close>

text \<open>\<open>type mode int\<close> with the constants \<open>modeList\<close>, \<open>modeAdd\<close>, \<open>modeEdit\<close>.\<close>

datatype mode = modeList | modeAdd | modeEdit

text \<open>
  \<open>type model struct\<close>.  The fields \<open>store\<close> (a pointer to the one store, which lives
  in the \<open>world\<close> below), \<open>keys\<close> (always \<open>newKeymap()\<close>) and \<open>help\<close> (never read) are
  left out; \<open>list\<close> and \<open>filter\<close> are spelled \<open>list'\<close> and \<open>filter'\<close>.
\<close>

record model =
  list' :: listModel
  filter' :: textinput
  form1 :: textinput
  form2 :: textinput
  fuzzy :: fuzzyList
  mode :: mode
  status :: string
  errMsg :: string
  width :: int
  height :: int

text \<open>
  What the session acts on outside its own record: the store, the heap with the
  backing arrays of its slices, the author configuration of git (global and of the
  repository), and the list of the \<open>git\<close> subprocesses run so far, by their arguments.
\<close>

record gitConfig =
  globalName :: "string option"
  globalEmail :: "string option"
  localName :: "string option"
  localEmail :: "string option"

record world =
  store :: Store
  heap :: heap
  config :: gitConfig
  runs :: "string list list"

text \<open>
  What the outside answers while one event is handled: the fault of each database call
  (a handler makes each call at most once), whether \<open>git rev-parse
  --is-inside-work-tree\<close> succeeds, and for each \<open>git config\<close> write either success or the
  error and the output of the failed subprocess.
\<close>

record env =
  insertFault :: fault
  deleteFault :: fault
  listFault :: fault
  inRepo :: bool
  nameWrite :: "(string \<times> string) option"
  emailWrite :: "(string \<times> string) option"

datatype Msg = WindowSizeMsg int int | Key KeyMsg

definition syncListView :: "lib \<Rightarrow> model \<Rightarrow> model" where
  "syncListView L m =
     m\<lparr>list' := \<lparr>items = view (fuzzy m),
                 index = listSetItems L (len (view (fuzzy m))) (index (list' m))\<rparr>\<rparr>"

definition arrows :: string where
  "arrows = [CHR 0xE2, CHR 0x86, CHR 0x91] @ ''/'' @ [CHR 0xE2, CHR 0x86, CHR 0x93]"

definition bullet :: string where
  "bullet = [CHR 0x20, CHR 0xE2, CHR 0x80, CHR 0xA2, CHR 0x20]"

definition emptyInput :: textinput where
  "emptyInput = \<lparr>val = [], focus = False\<rparr>"

definition initialModel :: "lib \<Rightarrow> User list \<Rightarrow> heap \<Rightarrow> model \<times> heap" where
  "initialModel L users h =
     (let (its, h1) = toItems users h;
          m = \<lparr>list' = \<lparr>items = its, index = 0\<rparr>,
               filter' = Blur emptyInput, form1 = emptyInput, form2 = emptyInput,
               fuzzy = \<lparr>all = nilSlice, view = nilSlice, query = []\<rparr>,
               mode = modeList,
               status = arrows @ '' select, g=global, l=local, a=add, ?=help'',
               errMsg = [], width = 0, height = 0\<rparr>;
          (fl, h2) = setAll L its (fuzzy m) h1
      in (syncListView L (m\<lparr>fuzzy := fl\<rparr>), h2))"

subsection \<open>git\<close>

text \<open>\<open>gitInRepo\<close> runs \<open>git rev-parse --is-inside-work-tree\<close> and reports whether it succeeded.\<close>

definition gitInRepo :: "env \<Rightarrow> world \<Rightarrow> bool \<times> world" where
  "gitInRepo E w = (inRepo E, w\<lparr>runs := runs w @ [[''rev-parse'', ''--is-inside-work-tree'']]\<rparr>)"

definition setConfig :: "string list \<Rightarrow> string \<Rightarrow> string \<Rightarrow> gitConfig \<Rightarrow> gitConfig" where
  "setConfig args k v c =
     (if ''--global'' \<in> set args
      then (if k = ''user.name'' then c\<lparr>globalName := Some v\<rparr> else c\<lparr>globalEmail := Some v\<rparr>)
      else (if k = ''user.name'' then c\<lparr>localName := Some v\<rparr> else c\<lparr>localEmail := Some v\<rparr>))"

text \<open>
  One \<open>exec.Command("git", append(args, k, v)...).CombinedOutput()\<close>: the run is
  recorded; it either fails with error and output, leaving the configuration alone, or
  sets the value.
\<close>

definition gitConfigRun ::
  "(string \<times> string) option \<Rightarrow> string list \<Rightarrow> string \<Rightarrow> string \<Rightarrow> world \<Rightarrow> string option \<times> world" where
  "gitConfigRun r args k v w =
     (let w1 = w\<lparr>runs := runs w @ [args @ [k, v]]\<rparr> in
      case r of
        Some (err, out) \<Rightarrow> (Some (''git: '' @ err @ '': '' @ out), w1)
      | None \<Rightarrow> (None, w1\<lparr>config := setConfig args k v (config w1)\<rparr>))"

definition setGitUser :: "env \<Rightarrow> string \<Rightarrow> User \<Rightarrow> world \<Rightarrow> string option \<times> world" where
  "setGitUser E scope u w =
     (let args = [''config''] @ (if scope = ''global'' then [''--global''] else []) in
      case gitConfigRun (nameWrite E) args ''user.name'' (Name u) w of
        (Some err, w1) \<Rightarrow> (Some err, w1)
      | (None, w1) \<Rightarrow> gitConfigRun (emailWrite E) args ''user.email'' (Email u) w1)"

subsection \<open>Update\<close>

definition applySelected :: "env \<Rightarrow> string \<Rightarrow> model \<Rightarrow> world \<Rightarrow> model \<times> Cmd \<times> world" where
  "applySelected E scope m w =
     (case SelectedItem (heap w) (list' m) of
        None \<Rightarrow> (m, CmdNil, w)
      | Some it \<Rightarrow>
          let (outside, w0) =
                (if scope = ''local'' then (case gitInRepo E w of (r, w') \<Rightarrow> (\<not> r, w'))
                 else (False, w))
          in if outside
             then (m\<lparr>errMsg := ''not inside a git repo (local set aborted)''\<rparr>, CmdNil, w0)
             else (case setGitUser E scope it w0 of
                     (Some err, w1) \<Rightarrow> (m\<lparr>errMsg := err\<rparr>, CmdNil, w1)
                   | (None, w1) \<Rightarrow>
                       (m\<lparr>status := ''set '' @ scope @ '': '' @ Name it @ '' <'' @ Email it @ ''>''\<rparr>,
                        CmdNil, w1)))"

text \<open>
  The reload after a store mutation, the same lines in the delete branch of
  \<open>updateListKeys\<close> and at the end of a submit in \<open>updateFormKeys\<close>:
  \<open>users, _ := m.store.allUsers(...)\<close> (the error is discarded), the loop building
  \<open>items\<close>, \<open>m.fuzzy.setAll(items)\<close> and \<open>m.syncListView()\<close>.
\<close>

definition reload :: "lib \<Rightarrow> env \<Rightarrow> model \<Rightarrow> world \<Rightarrow> model \<times> world" where
  "reload L E m w =
     (let (users, _) = allUsers (listFault E) (store w);
          (its, h1) = toItems users (heap w);
          (fl, h2) = setAll L its (fuzzy m) h1
      in (syncListView L (m\<lparr>fuzzy := fl\<rparr>), w\<lparr>heap := h2\<rparr>))"

definition helpStatus :: string where
  "helpStatus = ''keys: a add'' @ bullet @ ''g set global'' @ bullet @ ''l set local'' @ bullet @
     ''/ filter'' @ bullet @ ''del delete'' @ bullet @ ''e edit'' @ bullet @ ''enter=set local''"

definition updateListKeys :: "lib \<Rightarrow> env \<Rightarrow> KeyMsg \<Rightarrow> model \<Rightarrow> world \<Rightarrow> model \<times> Cmd \<times> world" where
  "updateListKeys L E k m w =
     (if Matches k (Quit newKeymap) then (m, CmdQuit, w)
      else if Matches k (Help newKeymap) then (m\<lparr>status := helpStatus\<rparr>, CmdNil, w)
      else if Matches k (Filter newKeymap) then
        (m\<lparr>filter' := Focus (SetValue [] (filter' m)), mode := modeList,
           status := ''type to filter, enter to apply, esc to clear''\<rparr>, CmdNil, w)
      else if Type k = KeyRunes \<and> focus (filter' m) then
        (let fi = inputUpdate L k (filter' m);
             (fl, h1) = fuzzyApply L (val fi) (fuzzy m) (heap w)
         in (syncListView L (m\<lparr>filter' := fi, fuzzy := fl\<rparr>), CmdWidget, w\<lparr>heap := h1\<rparr>))
      else if Type k = KeyEnter then applySelected E ''local'' m w
      else if Type k = KeyEsc \<and> focus (filter' m) then
        (let (fl, h1) = fuzzyApply L [] (fuzzy m) (heap w)
         in ((syncListView L (m\<lparr>filter' := SetValue [] (Blur (filter' m)), fuzzy := fl\<rparr>))
               \<lparr>status := ''filter cleared''\<rparr>, CmdNil, w\<lparr>heap := h1\<rparr>))
      else if Matches k (Add newKeymap) then
        (m\<lparr>mode := modeAdd, form1 := Focus (SetValue [] (form1 m)),
           form2 := SetValue [] (form2 m),
           status := ''add user: enter to next/save, esc to cancel''\<rparr>, CmdNil, w)
      else if Matches k (Delete newKeymap) then
        (case SelectedItem (heap w) (list' m) of
           None \<Rightarrow> (m, CmdNil, w)
         | Some it \<Rightarrow>
             let (_, st) = deleteUser (deleteFault E) (ID it) (store w);
                 (m1, w1) = reload L E m (w\<lparr>store := st\<rparr>)
             in (m1\<lparr>status := ''deleted''\<rparr>, CmdNil, w1))
      else if Matches k (Edit newKeymap) then
        (case SelectedItem (heap w) (list' m) of
           None \<Rightarrow> (m, CmdNil, w)
         | Some it \<Rightarrow>
             (m\<lparr>mode := modeEdit, form1 := Focus (SetValue (Name it) (form1 m)),
                form2 := SetValue (Email it) (form2 m),
                status := ''edit user: enter cycles fields, esc cancels''\<rparr>, CmdNil, w))
      else if Matches k (Global newKeymap) then applySelected E ''global'' m w
      else if Matches k (Local newKeymap) then applySelected E ''local'' m w
      else
        (case listUpdate L k (len (items (list' m))) (index (list' m)) of
           (i, cmd) \<Rightarrow> (m\<lparr>list' := (list' m)\<lparr>index := i\<rparr>\<rparr>, cmd, w)))"

definition updateFormKeys :: "lib \<Rightarrow> env \<Rightarrow> KeyMsg \<Rightarrow> model \<Rightarrow> world \<Rightarrow> model \<times> Cmd \<times> world" where
  "updateFormKeys L E k m w =
     (if Matches k (Clear newKeymap) then (m\<lparr>mode := modeList, status := ''cancelled''\<rparr>, CmdNil, w)
      else if Type k = KeyEnter then
        (if focus (form1 m) then (m\<lparr>form1 := Blur (form1 m), form2 := Focus (form2 m)\<rparr>, CmdNil, w)
         else
           let name = TrimSpace (val (form1 m)); email = TrimSpace (val (form2 m)) in
           if name = [] \<or> email = [] \<or> \<not> Contains email ''@''
           then (m\<lparr>errMsg := ''invalid name/email''\<rparr>, CmdNil, w)
           else
             let st0 = (if mode m = modeAdd then store w
                        else case SelectedItem (heap w) (list' m) of
                               None \<Rightarrow> store w
                             | Some it \<Rightarrow> snd (deleteUser (deleteFault E) (ID it) (store w)))
             in case insertUser (insertFault E) name email st0 of
                  (Inl err, st1) \<Rightarrow> (m\<lparr>errMsg := err\<rparr>, CmdNil, w\<lparr>store := st1\<rparr>)
                | (Inr _, st1) \<Rightarrow>
                    let (m1, w1) = reload L E m (w\<lparr>store := st1\<rparr>)
                    in (m1\<lparr>mode := modeList, status := ''saved''\<rparr>, CmdNil, w1))
      else
        (m\<lparr>form1 := inputUpdate L k (form1 m), form2 := inputUpdate L k (form2 m)\<rparr>, CmdWidget, w))"

text \<open>
  \<open>model.Update\<close> for the two kinds of message the program itself inspects: a
  window size only records the size, a key goes to the handler of the mode.
\<close>

definition Update :: "lib \<Rightarrow> env \<Rightarrow> Msg \<Rightarrow> model \<Rightarrow> world \<Rightarrow> model \<times> Cmd \<times> world" where
  "Update L E msg m w =
     (case msg of
        WindowSizeMsg wd ht \<Rightarrow> (m\<lparr>width := wd, height := ht\<rparr>, CmdNil, w)
      | Key k \<Rightarrow>
          (case mode m of
             modeList \<Rightarrow> updateListKeys L E k m w
           | modeAdd \<Rightarrow> updateFormKeys L E k m w
           | modeEdit \<Rightarrow> updateFormKeys L E k m w))"

section \<open>Notions used by the properties\<close>

text \<open>
  A slice is backed when the array it points to exists and has at least \<open>cap\<close>
  cells, as the Go run-time system guarantees for every slice; \<open>sliceOk\<close> adds that
  the length stays within the capacity.
\<close>

definition backed :: "heap \<Rightarrow> slice \<Rightarrow> bool" where
  "backed h s = (cap s = 0 \<or> (ptr s < length h \<and> cap s \<le> length (h ! ptr s)))"

definition sliceOk :: "heap \<Rightarrow> slice \<Rightarrow> bool" where
  "sliceOk h s = (len s \<le> cap s \<and> backed h s)"

text \<open>The number of rows holding a given pair of name and email.\<close>

definition countPair :: "string \<Rightarrow> string \<Rightarrow> User list \<Rightarrow> nat" where
  "countPair n e us = length (filter (\<lambda>u. Name u = n \<and> Email u = e) us)"

text \<open>
  What the schema keeps true of the table: \<open>UNIQUE(name, email)\<close>, the primary key,
  and no rowid beyond the AUTOINCREMENT counter.
\<close>

definition storeOk :: "Store \<Rightarrow> bool" where
  "storeOk s =
     (distinct (map (\<lambda>u. (Name u, Email u)) (rows s)) \<and>
      distinct (map ID (rows s)) \<and>
      list_all (\<lambda>u. ID u \<le> seq s) (rows s))"

text \<open>
  The Fuzzy Filter of the specification as a function of query and corpus: the whole
  corpus for a query that is empty after trimming, otherwise the entries at the
  ranked match positions.
\<close>

definition ranking :: "lib \<Rightarrow> string \<Rightarrow> User list \<Rightarrow> nat list" where
  "ranking L q us = Find (score L) q (map FilterValue us)"

definition applyFilter :: "lib \<Rightarrow> string \<Rightarrow> User list \<Rightarrow> User list" where
  "applyFilter L q us =
     (if TrimSpace q = [] then us
      else map (\<lambda>i. us ! i) (ranking L q us))"

text \<open>The check of a submit in \<open>updateFormKeys\<close>, as a predicate of the session.\<close>

definition validForm :: "model \<Rightarrow> bool" where
  "validForm m =
     (TrimSpace (val (form1 m)) \<noteq> [] \<and> TrimSpace (val (form2 m)) \<noteq> [] \<and>
      Contains (TrimSpace (val (form2 m))) ''@'')"



text \<open>
  The failure of the action an event asks for, as the text the user is shown, \<open>None\<close>
  when the action completes or the event asks for none.  An apply to a scope (enter
  for the local scope; \<open>g\<close> and \<open>l\<close> outside the filter input) with an item selected
  fails outside a repository for the local scope, and else when a \<open>git config\<close> run
  fails.  A submit of a form fails on an invalid buffer and when the insert fails.
\<close>

definition applyScope :: "KeyMsg \<Rightarrow> model \<Rightarrow> string option" where
  "applyScope k m =
     (if Type k = KeyEnter then Some ''local''
      else if Matches k (Global newKeymap) \<and> \<not> focus (filter' m) then Some ''global''
      else if Matches k (Local newKeymap) \<and> \<not> focus (filter' m) then Some ''local''
      else None)"

definition writeFailure :: "env \<Rightarrow> string option" where
  "writeFailure E =
     (case nameWrite E of
        Some (err, out) \<Rightarrow> Some (''git: '' @ err @ '': '' @ out)
      | None \<Rightarrow>
          (case emailWrite E of
             Some (err, out) \<Rightarrow> Some (''git: '' @ err @ '': '' @ out)
           | None \<Rightarrow> None))"

definition insertFailure :: "env \<Rightarrow> world \<Rightarrow> string option" where
  "insertFailure E w =
     (case insertFault E of
        Some err \<Rightarrow> Some err
      | None \<Rightarrow> if maxInt64 \<le> seq (store w) then Some ''database or disk is full (13)'' else None)"

definition failure :: "env \<Rightarrow> Msg \<Rightarrow> model \<Rightarrow> world \<Rightarrow> string option" where
  "failure E msg m w =
     (case msg of
        WindowSizeMsg wd ht \<Rightarrow> None
      | Key k \<Rightarrow>
          if mode m = modeList then
            (case applyScope k m of
               None \<Rightarrow> None
             | Some scope \<Rightarrow>
                 if SelectedItem (heap w) (list' m) = None then None
                 else if scope = ''local'' \<and> \<not> inRepo E
                   then Some ''not inside a git repo (local set aborted)''
                 else writeFailure E)
          else if Type k = KeyEnter \<and> \<not> focus (form1 m) then
            (if validForm m then insertFailure E w else Some ''invalid name/email'')
          else None)"

section \<open>Concrete sessions\<close>

text \<open>
  One behaviour of the library parts, to run the model on concrete input: typed runes
  are appended to a focused text input, all matches score alike, \<open>SetItems\<close> leaves the
  cursor where it is, and the list moves the cursor with the arrow keys and quits on
  esc.
\<close>

definition stdLib :: lib where
  "stdLib =
     \<lparr>score = (\<lambda>q c. 0),
      inputUpdate = (\<lambda>k t. if focus t \<and> Type k = KeyRunes then t\<lparr>val := val t @ Runes k\<rparr> else t),
      listUpdate = (\<lambda>k n i.
        if Type k = KeyUp then (i - 1, CmdNil)
        else if Type k = KeyDown then (if i + 1 < n then i + 1 else i, CmdNil)
        else if keyString k = ''esc'' then (i, CmdQuit)
        else (i, CmdNil)),
      listSetItems = (\<lambda>n i. i)\<rparr>"

text \<open>
  Environments: nothing fails inside a repository; the database fails on delete and
  on the query of all rows; the working directory is outside every repository.
\<close>

definition noFaults :: env where
  "noFaults = \<lparr>insertFault = None, deleteFault = None, listFault = None, inRepo = True,
               nameWrite = None, emailWrite = None\<rparr>"

definition ioFaults :: env where
  "ioFaults = noFaults\<lparr>deleteFault := Some ''disk I/O error'', listFault := Some ''disk I/O error''\<rparr>"

definition outside :: env where
  "outside = noFaults\<lparr>inRepo := False\<rparr>"

definition runes :: "string \<Rightarrow> KeyMsg" where
  "runes s = \<lparr>Type = KeyRunes, Runes = s, Alt = False\<rparr>"

definition press :: "KeyType \<Rightarrow> KeyMsg" where
  "press t = \<lparr>Type = t, Runes = [], Alt = False\<rparr>"

text \<open>
  The event loop of \<open>tea.NewProgram(...).Run()\<close>: every message goes through
  \<open>Update\<close>, and the loop ends with \<open>tea.Quit\<close>.
\<close>

fun run :: "lib \<Rightarrow> (env \<times> Msg) list \<Rightarrow> model \<times> world \<Rightarrow> model \<times> world" where
  "run L [] mw = mw"
| "run L ((E, msg) # es) (m, w) =
     (case Update L E msg m w of
        (m', CmdQuit, w') \<Rightarrow> (m', w')
      | (m', _, w') \<Rightarrow> run L es (m', w'))"

text \<open>
  A store as a fresh connection finds it: one row written by an earlier run, and no
  insert yet on this connection.
\<close>

definition demoStore :: Store where
  "demoStore = \<lparr>rows = [\<lparr>ID = 7, Name = ''Ann'', Email = ''ann@x.org''\<rparr>], seq = 7, lastInsertId = 0\<rparr>"

text \<open>
  A store with three identities and the session \<open>main\<close> starts on it: \<open>allUsers\<close>,
  then \<open>initialModel\<close>.
\<close>

definition threeStore :: Store where
  "threeStore =
     \<lparr>rows = [\<lparr>ID = 1, Name = ''Bob'', Email = ''bob@x.org''\<rparr>,
              \<lparr>ID = 2, Name = ''Alice'', Email = ''alice@x.org''\<rparr>,
              \<lparr>ID = 3, Name = ''Carl'', Email = ''carl@x.org''\<rparr>],
      seq = 3, lastInsertId = 0\<rparr>"

definition start :: "model \<times> world" where
  "start =
     (case initialModel stdLib (fst (allUsers None threeStore)) [] of
        (m, h) \<Rightarrow>
          (m, \<lparr>store = threeStore, heap = h,
               config = \<lparr>globalName = None, globalEmail = None, localName = None, localEmail = None\<rparr>,
               runs = []\<rparr>))"

text \<open>The user starts the filter and types \<open>b\<close>; then presses backspace.\<close>

definition typedB :: "model \<times> world" where
  "typedB = run stdLib [(noFaults, Key (runes ''/'')), (noFaults, Key (runes ''b''))] start"

definition deletedB :: "model \<times> world" where
  "deletedB = run stdLib [(noFaults, Key (press KeyBackspace))] typedB"


text \<open>
  The user opens the add form and moves to the email field; submits the form empty;
  then leaves the form with esc.
\<close>

definition addOpen :: "model \<times> world" where
  "addOpen = run stdLib [(noFaults, Key (runes ''a'')), (noFaults, Key (press KeyEnter))] start"

definition failedAdd :: "model \<times> world" where
  "failedAdd = run stdLib [(noFaults, Key (press KeyEnter))] addOpen"

definition cancelled :: "model \<times> world" where
  "cancelled = run stdLib [(noFaults, Key (press KeyEsc))] failedAdd"



text \<open>The user presses backspace in the list while the database is failing.\<close>

definition failedDelete :: "model \<times> world" where
  "failedDelete = run stdLib [(ioFaults, Key (press KeyBackspace))] start"

text \<open>
  The user edits the selected identity (Alice), types \<open>x\<close> into the name field and
  moves to the email field.
\<close>

definition editing :: "model \<times> world" where
  "editing = run stdLib [(noFaults, Key (runes ''e'')), (noFaults, Key (runes ''x'')),
                         (noFaults, Key (press KeyEnter))] start"

section \<open>Lemmas\<close>

subsection \<open>Trimming\<close>

lemma trimPrefixes_fix:
  "List.find (\<lambda>p. p \<noteq> [] \<and> prefix p s) ps = None \<Longrightarrow> trimPrefixes ps s = s"
  by (simp add: trimPrefixes.simps)

lemma trimPrefixes_none:
  "List.find (\<lambda>p. p \<noteq> [] \<and> prefix p (trimPrefixes ps s)) ps = None"
proof (induction ps s rule: trimPrefixes.induct)
  case (1 ps s)
  show ?case
  proof (cases "List.find (\<lambda>p. p \<noteq> [] \<and> prefix p s) ps")
    case None
    then show ?thesis by (simp add: trimPrefixes.simps [of ps s])
  next
    case (Some p)
    with "1.IH" show ?thesis by (simp add: trimPrefixes.simps [of ps s])
  qed
qed

lemma trimPrefixes_idem: "trimPrefixes ps (trimPrefixes ps s) = trimPrefixes ps s"
  by (rule trimPrefixes_fix) (rule trimPrefixes_none)

lemma trimPrefixes_suffix: "\<exists>a. s = a @ trimPrefixes ps s"
proof (induction ps s rule: trimPrefixes.induct)
  case (1 ps s)
  show ?case
  proof (cases "List.find (\<lambda>p. p \<noteq> [] \<and> prefix p s) ps")
    case None
    then show ?thesis by (simp add: trimPrefixes.simps [of ps s])
  next
    case (Some p)
    with "1.IH" obtain a where "drop (length p) s = a @ trimPrefixes ps (drop (length p) s)"
      by blast
    then have "s = (take (length p) s @ a) @ trimPrefixes ps (drop (length p) s)"
      by (metis append.assoc append_take_drop_id)
    then have "\<exists>b. s = b @ trimPrefixes ps (drop (length p) s)" ..
    with Some show ?thesis by (simp add: trimPrefixes.simps [of ps s])
  qed
qed

lemma trimRight_prefix: "prefix (trimRight s) s"
proof -
  obtain a where "rev s = a @ trimPrefixes (map rev spaceRunes) (rev s)"
    using trimPrefixes_suffix by blast
  then have "s = rev (trimPrefixes (map rev spaceRunes) (rev s)) @ rev a"
    by (metis rev_append rev_rev_ident)
  then show ?thesis unfolding trimRight_def prefix_def by blast
qed

lemma trimLeft_suffix: "\<exists>a. s = a @ trimLeft s"
  unfolding trimLeft_def by (rule trimPrefixes_suffix)

lemma set_TrimSpace: "set (TrimSpace s) \<subseteq> set s"
proof -
  obtain a where a: "s = a @ trimLeft s" using trimLeft_suffix by blast
  have "set (trimRight (trimLeft s)) \<subseteq> set (trimLeft s)"
    using trimRight_prefix [of "trimLeft s"] by (auto simp: prefix_def) (metis Un_iff set_append)
  moreover have "set (trimLeft s) \<subseteq> set s" using a by (metis Un_upper2 set_append)
  ultimately show ?thesis unfolding TrimSpace_def by blast
qed

lemma find_None_prefix:
  "List.find (\<lambda>p. p \<noteq> [] \<and> prefix p s) ps = None \<Longrightarrow> prefix t s \<Longrightarrow>
   List.find (\<lambda>p. p \<noteq> [] \<and> prefix p t) ps = None"
  by (auto simp: find_None_iff prefix_def)

lemma TrimSpace_idem: "TrimSpace (TrimSpace s) = TrimSpace s"
proof -
  let ?t = "trimLeft s"
  have "List.find (\<lambda>p. p \<noteq> [] \<and> prefix p ?t) spaceRunes = None"
    unfolding trimLeft_def by (rule trimPrefixes_none)
  then have "List.find (\<lambda>p. p \<noteq> [] \<and> prefix p (trimRight ?t)) spaceRunes = None"
    using find_None_prefix trimRight_prefix by blast
  then have l: "trimLeft (trimRight ?t) = trimRight ?t"
    unfolding trimLeft_def by (rule trimPrefixes_fix)
  have r: "trimRight (trimRight ?t) = trimRight ?t"
    unfolding trimRight_def by (simp add: trimPrefixes_idem)
  show ?thesis unfolding TrimSpace_def by (simp add: l r)
qed

lemma TrimSpace_Nil: "TrimSpace [] = []"
  by (simp add: TrimSpace_def trimLeft_def trimRight_def trimPrefixes.simps spaceRunes_def)

lemma prefix_single: "prefix [c] xs = (xs \<noteq> [] \<and> hd xs = c)"
  by (cases xs) auto

lemma Contains_at: "Contains s ''@'' = (CHR ''@'' \<in> set s)"
proof
  assume "Contains s ''@''"
  then have "\<exists>i. i < length s \<and> hd (drop i s) = CHR ''@''"
    by (auto simp: Contains_def list_ex_iff prefix_single)
  then obtain i where "i < length s" and "hd (drop i s) = CHR ''@''"
    by blast
  then show "CHR ''@'' \<in> set s"
    by (metis hd_drop_conv_nth nth_mem)
next
  assume "CHR ''@'' \<in> set s"
  then obtain i where "i < length s" and "s ! i = CHR ''@''"
    by (auto simp: in_set_conv_nth)
  then have "drop i s \<noteq> [] \<and> hd (drop i s) = CHR ''@''"
    by (simp add: hd_drop_conv_nth)
  with \<open>i < length s\<close> show "Contains s ''@''"
    by (auto simp: Contains_def list_ex_iff prefix_single intro!: bexI [of _ i])
qed

subsection \<open>Slices\<close>

lemma growCap_gt: "c < growCap c"
  by (simp add: growCap_def)

lemma elems_fresh: "elems (h @ [a]) \<lparr>ptr = length h, len = n, cap = c\<rparr> = take n a"
  by (simp add: elems_def cellsAt_def)

lemma sliceOk_length: "sliceOk h s \<Longrightarrow> length (elems h s) = len s"
  by (auto simp: sliceOk_def backed_def elems_def cellsAt_def)

lemma appendItem_ok:
  assumes "sliceOk h s" and "appendItem s x h = (s', h')"
  shows "sliceOk h' s' \<and> elems h' s' = elems h s @ [x]"
proof (cases "len s < cap s")
  case True
  with assms(1) have p: "ptr s < length h" and c: "cap s \<le> length (h ! ptr s)"
    by (auto simp: sliceOk_def backed_def)
  from True assms(2) have s': "s' = s\<lparr>len := len s + 1\<rparr>"
    and h': "h' = h[ptr s := (cellsAt h (ptr s))[len s := x]]"
    by (auto simp: appendItem_def)
  have "take (Suc (len s)) ((h ! ptr s)[len s := x]) = take (len s) (h ! ptr s) @ [x]"
    using True c by (simp add: take_Suc_conv_app_nth)
  with True p c show ?thesis
    by (simp add: s' h' sliceOk_def backed_def elems_def cellsAt_def)
next
  case False
  with assms(1) have eq: "len s = cap s" by (simp add: sliceOk_def)
  from False assms(2) have s': "s' = \<lparr>ptr = length h, len = len s + 1, cap = growCap (cap s)\<rparr>"
    and h': "h' = h @ [elems h s @ [x] @ replicate (growCap (cap s) - (len s + 1)) zeroItem]"
    by (auto simp: appendItem_def)
  have l: "length (elems h s) = len s" using assms(1) by (rule sliceOk_length)
  have g: "len s < growCap (cap s)" using eq growCap_gt [of "cap s"] by simp
  have "take (Suc (len s)) (elems h s @ [x] @ replicate (growCap (cap s) - (len s + 1)) zeroItem)
        = elems h s @ [x]"
    using l by simp
  then have "elems h' s' = elems h s @ [x]"
    unfolding s' h' elems_fresh by simp
  moreover have "sliceOk h' s'"
    using g l by (simp add: s' h' sliceOk_def backed_def)
  ultimately show ?thesis by simp
qed

lemma appendAll_ok:
  "sliceOk h s \<Longrightarrow> appendAll xs (s, h) = (s', h') \<Longrightarrow>
   sliceOk h' s' \<and> elems h' s' = elems h s @ xs"
proof (induction xs arbitrary: s h)
  case Nil
  then show ?case by (simp add: appendAll_def)
next
  case (Cons x xs)
  obtain s1 h1 where a: "appendItem s x h = (s1, h1)" by (cases "appendItem s x h")
  with Cons.prems(2) have "appendAll xs (s1, h1) = (s', h')"
    by (simp add: appendAll_def)
  moreover from appendItem_ok [OF Cons.prems(1) a]
  have "sliceOk h1 s1" and "elems h1 s1 = elems h s @ [x]" by simp_all
  ultimately show ?case using Cons.IH [of h1 s1] by simp
qed

lemma toItems_ok:
  assumes "toItems users h = (its, h1)"
  shows "sliceOk h1 its \<and> elems h1 its = users"
proof -
  have "sliceOk (h @ [replicate (length users) zeroItem]) \<lparr>ptr = length h, len = 0, cap = length users\<rparr>"
    by (simp add: sliceOk_def backed_def)
  moreover have "elems (h @ [replicate (length users) zeroItem]) \<lparr>ptr = length h, len = 0, cap = length users\<rparr> = []"
    by (simp add: elems_def)
  ultimately show ?thesis
    using assms appendAll_ok [of "h @ [replicate (length users) zeroItem]"
        "\<lparr>ptr = length h, len = 0, cap = length users\<rparr>" users its h1]
    by (simp add: toItems_def makeSlice_def)
qed


lemma setAll_eq: "setAll L its fl h = (fl\<lparr>all := its, query := [], view := its\<rparr>, h)"
  by (simp add: setAll_def fuzzyApply_def TrimSpace_Nil)

lemma foldl_appendItem:
  "foldl (\<lambda>(v, h) i. appendItem v (f i) h) sh is = appendAll (map f is) sh"
  unfolding appendAll_def
  by (induction "is" arbitrary: sh) (simp_all add: case_prod_beta)

lemma fuzzyApply_view:
  assumes "backed h (view fl)" and "fuzzyApply L q fl h = (fl', h')"
  shows "query fl' = q \<and> all fl' = all fl \<and>
         elems h' (view fl') =
           (if TrimSpace q = [] then elems h (all fl)
            else map (\<lambda>i. elems h (all fl) ! i)
                   (Find (score L) q (map FilterValue (elems h (all fl)))))"
proof (cases "TrimSpace q = []")
  case True
  with assms(2) show ?thesis by (auto simp: fuzzyApply_def)
next
  case False
  let ?us = "elems h (all fl)"
  let ?arr = "map (\<lambda>it. (FilterValue it, it)) ?us"
  let ?ms = "Find (score L) q (map fst ?arr)"
  obtain v hh where f: "appendAll (map (\<lambda>i. snd (?arr ! i)) ?ms) ((view fl)\<lparr>len := 0\<rparr>, h) = (v, hh)"
    by (cases "appendAll (map (\<lambda>i. snd (?arr ! i)) ?ms) ((view fl)\<lparr>len := 0\<rparr>, h)")
  have ok: "sliceOk h ((view fl)\<lparr>len := 0\<rparr>)"
    using assms(1) by (simp add: sliceOk_def backed_def)
  from appendAll_ok [OF ok f]
  have e: "elems hh v = map (\<lambda>i. snd (?arr ! i)) ?ms" by (simp add: elems_def)
  have r: "set ?ms \<subseteq> {..< length ?us}" by (auto simp: Find_def)
  have m: "map (\<lambda>i. snd (?arr ! i)) ?ms = map (\<lambda>i. ?us ! i) ?ms"
    using r by (intro map_cong) auto
  have c: "map fst ?arr = map FilterValue ?us" by (simp add: comp_def)
  from False assms(2) f have "fl' = fl\<lparr>query := q, view := v\<rparr>" and "h' = hh"
    by (simp_all add: fuzzyApply_def Let_def foldl_appendItem)
  then have "query fl' = q" and "all fl' = all fl" and "elems h' (view fl') = elems hh v"
    by simp_all
  moreover have "elems hh v = map (\<lambda>i. ?us ! i) (Find (score L) q (map FilterValue ?us))"
    using e m c by metis
  ultimately show ?thesis using False by simp
qed

subsection \<open>The matcher\<close>





subsection \<open>The store\<close>

lemma countPair_absent: "\<not> hasPair n e us \<Longrightarrow> countPair n e us = 0"
  by (induction us) (auto simp: hasPair_def countPair_def)

lemma countPair_present:
  "distinct (map (\<lambda>u. (Name u, Email u)) us) \<Longrightarrow> hasPair n e us \<Longrightarrow> countPair n e us = 1"
proof (induction us)
  case Nil
  then show ?case by (simp add: hasPair_def)
next
  case (Cons u us)
  show ?case
  proof (cases "Name u = n \<and> Email u = e")
    case True
    with Cons.prems(1) have "\<not> hasPair n e us" by (auto simp: hasPair_def)
    then have "countPair n e us = 0" by (rule countPair_absent)
    with True show ?thesis by (simp add: countPair_def)
  next
    case False
    with Cons.prems have "hasPair n e us" and "distinct (map (\<lambda>u. (Name u, Email u)) us)"
      by (auto simp: hasPair_def)
    with Cons.IH have "countPair n e us = 1" by simp
    with False show ?thesis by (auto simp: countPair_def)
  qed
qed

lemma countPair_append: "countPair n e (us @ vs) = countPair n e us + countPair n e vs"
  by (simp add: countPair_def)

lemma insertUser_duplicate:
  assumes "hasPair (TrimSpace name) (TrimSpace email) (rows s)" and "seq s < maxInt64"
  shows "insertUser None name email s = (Inr (lastInsertId s), s\<lparr>seq := seq s + 1\<rparr>)"
  using assms by (simp add: insertUser_def Let_def)

lemma insertUser_fresh:
  assumes "\<not> hasPair (TrimSpace name) (TrimSpace email) (rows s)" and "seq s < maxInt64"
  shows "insertUser None name email s =
           (Inr (seq s + 1),
            s\<lparr>rows := rows s @ [\<lparr>ID = seq s + 1, Name = TrimSpace name, Email = TrimSpace email\<rparr>],
              seq := seq s + 1, lastInsertId := seq s + 1\<rparr>)"
  using assms by (simp add: insertUser_def Let_def)

lemma insertUser_rows:
  assumes "distinct (map (\<lambda>u. (Name u, Email u)) (rows s))" and "seq s < maxInt64"
    and "insertUser None name email s = (r, s1)"
  shows "hasPair (TrimSpace name) (TrimSpace email) (rows s1) \<and>
         countPair (TrimSpace name) (TrimSpace email) (rows s1) = 1 \<and>
         seq s1 = seq s + 1"
proof (cases "hasPair (TrimSpace name) (TrimSpace email) (rows s)")
  case True
  with assms(2,3) have "s1 = s\<lparr>seq := seq s + 1\<rparr>" by (simp add: insertUser_duplicate)
  with True assms(1) show ?thesis by (simp add: countPair_present)
next
  case False
  with assms(2,3) have "s1 = s\<lparr>rows := rows s @ [\<lparr>ID = seq s + 1, Name = TrimSpace name, Email = TrimSpace email\<rparr>],
              seq := seq s + 1, lastInsertId := seq s + 1\<rparr>" by (simp add: insertUser_fresh)
  with False show ?thesis
    by (simp add: countPair_append countPair_absent) (simp add: countPair_def hasPair_def)
qed

subsection \<open>The handlers\<close>

lemma reload_post:
  assumes "reload L E m w = (m1, w1)"
  shows "query (fuzzy m1) = [] \<and> view (fuzzy m1) = all (fuzzy m1) \<and>
         items (list' m1) = view (fuzzy m1) \<and>
         elems (heap w1) (all (fuzzy m1)) = fst (allUsers (listFault E) (store w)) \<and>
         sliceOk (heap w1) (all (fuzzy m1)) \<and>
         store w1 = store w \<and> config w1 = config w \<and> runs w1 = runs w \<and>
         mode m1 = mode m \<and> errMsg m1 = errMsg m \<and> status m1 = status m \<and>
         filter' m1 = filter' m \<and> form1 m1 = form1 m \<and> form2 m1 = form2 m"
proof -
  obtain users f where u: "allUsers (listFault E) (store w) = (users, f)"
    by (cases "allUsers (listFault E) (store w)")
  obtain its h1 where t: "toItems users (heap w) = (its, h1)"
    by (cases "toItems users (heap w)")
  from assms u t have m1: "m1 = syncListView L (m\<lparr>fuzzy := (fuzzy m)\<lparr>all := its, query := [], view := its\<rparr>\<rparr>)"
    and w1: "w1 = w\<lparr>heap := h1\<rparr>"
    by (simp_all add: reload_def setAll_eq)
  from toItems_ok [OF t] u show ?thesis
    by (simp add: m1 w1 syncListView_def)
qed


lemma submit_step:
  assumes "mode m \<noteq> modeList" and "Type k = KeyEnter" and "\<not> focus (form1 m)" and "validForm m"
  shows "updateFormKeys L E k m w =
     (let st0 = (if mode m = modeAdd then store w
                 else case SelectedItem (heap w) (list' m) of
                        None \<Rightarrow> store w
                      | Some it \<Rightarrow> snd (deleteUser (deleteFault E) (ID it) (store w)))
      in case insertUser (insertFault E) (TrimSpace (val (form1 m))) (TrimSpace (val (form2 m))) st0 of
           (Inl err, st1) \<Rightarrow> (m\<lparr>errMsg := err\<rparr>, CmdNil, w\<lparr>store := st1\<rparr>)
         | (Inr _, st1) \<Rightarrow>
             (case reload L E m (w\<lparr>store := st1\<rparr>) of
                (m1, w1) \<Rightarrow> (m1\<lparr>mode := modeList, status := ''saved''\<rparr>, CmdNil, w1)))"
proof -
  from assms(2) have "\<not> Matches k (Clear newKeymap)"
    by (auto simp: Matches_def newKeymap_def keyString_def)
  with assms show ?thesis
    by (simp add: updateFormKeys_def validForm_def Let_def case_prod_beta split: sum.split)
qed



lemma deleteUser_seq: "seq (snd (deleteUser f i s)) = seq s"
  by (cases f) (simp_all add: deleteUser_def)


lemma deleteUser_ok: "deleteUser None i s = (None, s\<lparr>rows := filter (\<lambda>u. ID u \<noteq> i) (rows s)\<rparr>)"
  by (simp add: deleteUser_def)

lemma reload_errMsg: "errMsg (fst (reload L E m w)) = errMsg m"
  using reload_post [of L E m w "fst (reload L E m w)" "snd (reload L E m w)"] by simp

lemma syncListView_msgs [simp]:
  "errMsg (syncListView L m) = errMsg m" "status (syncListView L m) = status m"
  by (simp_all add: syncListView_def)

lemma typing_view:
  assumes "mode m = modeList" and "Type k = KeyRunes" and "focus (filter' m)"
    and "\<not> Matches k (Quit newKeymap)" and "\<not> Matches k (Help newKeymap)"
    and "\<not> Matches k (Filter newKeymap)"
    and "backed (heap w) (view (fuzzy m))"
    and "updateListKeys L E k m w = (m', c, w')"
  shows "query (fuzzy m') = val (filter' m') \<and>
         elems (heap w') (view (fuzzy m')) =
           applyFilter L (query (fuzzy m')) (elems (heap w) (all (fuzzy m)))"
proof -
  let ?fi = "inputUpdate L k (filter' m)"
  obtain fl h1 where f: "fuzzyApply L (val ?fi) (fuzzy m) (heap w) = (fl, h1)"
    by (cases "fuzzyApply L (val ?fi) (fuzzy m) (heap w)")
  from assms(2-6,8) f
  have m': "m' = syncListView L (m\<lparr>filter' := ?fi, fuzzy := fl\<rparr>)" and w': "w' = w\<lparr>heap := h1\<rparr>"
    by (simp_all add: updateListKeys_def)
  from fuzzyApply_view [OF assms(7) f] show ?thesis
    by (simp add: m' w' syncListView_def applyFilter_def ranking_def)
qed


lemma setGitUser_failure: "fst (setGitUser E scope u w) = writeFailure E"
  by (simp add: setGitUser_def gitConfigRun_def writeFailure_def Let_def
           split: option.split prod.split)

lemma applySelected_none:
  "SelectedItem (heap w) (list' m) = None \<Longrightarrow> applySelected E scope m w = (m, CmdNil, w)"
  by (simp add: applySelected_def)

lemma applySelected_failure:
  assumes "SelectedItem (heap w) (list' m) = Some it"
  shows "case (if scope = ''local'' \<and> \<not> inRepo E
               then Some ''not inside a git repo (local set aborted)'' else writeFailure E) of
           None \<Rightarrow> errMsg (fst (applySelected E scope m w)) = errMsg m
         | Some t \<Rightarrow> errMsg (fst (applySelected E scope m w)) = t \<and>
                     status (fst (applySelected E scope m w)) = status m"
proof (cases "scope = ''local'' \<and> \<not> inRepo E")
  case True
  with assms show ?thesis by (simp add: applySelected_def gitInRepo_def)
next
  case False
  let ?w0 = "if scope = ''local'' then w\<lparr>runs := runs w @ [[''rev-parse'', ''--is-inside-work-tree'']]\<rparr> else w"
  obtain r w1 where g: "setGitUser E scope it ?w0 = (r, w1)" by (cases "setGitUser E scope it ?w0")
  then have r: "r = writeFailure E" using setGitUser_failure [of E scope it ?w0] by simp
  from assms False g show ?thesis
    by (cases r) (auto simp: applySelected_def gitInRepo_def r [symmetric])
qed

lemma enter_no_binding:
  "Type k = KeyEnter \<Longrightarrow> \<not> Matches k (Quit newKeymap) \<and> \<not> Matches k (Help newKeymap) \<and>
     \<not> Matches k (Filter newKeymap)"
  by (auto simp: Matches_def newKeymap_def keyString_def)

lemma single_rune:
  "keyString k = [x] \<Longrightarrow> Type k = KeyRunes"
  by (cases "Type k") (auto simp: keyString_def split: if_splits)

lemma updateListKeys_failure:
  assumes "mode m = modeList"
  shows "case failure E (Key k) m w of
           None \<Rightarrow> errMsg (fst (updateListKeys L E k m w)) = errMsg m
         | Some t \<Rightarrow> errMsg (fst (updateListKeys L E k m w)) = t \<and>
                     status (fst (updateListKeys L E k m w)) = status m"
proof (cases "applyScope k m")
  case None
  then have f: "failure E (Key k) m w = None" using assms by (simp add: failure_def)
  from None have ne: "Type k \<noteq> KeyEnter"
    and g: "Matches k (Global newKeymap) \<Longrightarrow> focus (filter' m)"
    and l: "Matches k (Local newKeymap) \<Longrightarrow> focus (filter' m)"
    by (auto simp: applyScope_def split: if_splits)
  have gr: "Matches k (Global newKeymap) \<Longrightarrow> Type k = KeyRunes"
    and lr: "Matches k (Local newKeymap) \<Longrightarrow> Type k = KeyRunes"
    by (auto simp: Matches_def newKeymap_def intro: single_rune)
  have "errMsg (fst (updateListKeys L E k m w)) = errMsg m"
    using ne g l gr lr
    by (auto simp: updateListKeys_def Let_def case_prod_beta reload_errMsg split: option.split)
  with f show ?thesis by simp
next
  case (Some scope)
  show ?thesis
  proof (cases "SelectedItem (heap w) (list' m)")
    case None
    with Some assms have f: "failure E (Key k) m w = None" by (simp add: failure_def)
    have "errMsg (fst (updateListKeys L E k m w)) = errMsg m"
      using None applySelected_none [OF None]
      by (auto simp: updateListKeys_def Let_def case_prod_beta reload_errMsg)
    with f show ?thesis by simp
  next
    case it: (Some it)
    have f: "failure E (Key k) m w =
        (if scope = ''local'' \<and> \<not> inRepo E
         then Some ''not inside a git repo (local set aborted)'' else writeFailure E)"
      using Some it assms by (simp add: failure_def)
    have u: "updateListKeys L E k m w = applySelected E scope m w"
    proof (cases "Type k = KeyEnter")
      case True
      with Some have "scope = ''local''" by (simp add: applyScope_def)
      with True enter_no_binding [OF True] show ?thesis by (simp add: updateListKeys_def)
    next
      case False
      with Some have nf: "\<not> focus (filter' m)"
        and gl: "(Matches k (Global newKeymap) \<and> scope = ''global'') \<or>
                 (\<not> Matches k (Global newKeymap) \<and> Matches k (Local newKeymap) \<and> scope = ''local'')"
        by (auto simp: applyScope_def split: if_splits)
      from gl have "keyString k = ''g'' \<or> keyString k = ''l''"
        by (auto simp: Matches_def newKeymap_def)
      then have n: "\<not> Matches k (Quit newKeymap)" "\<not> Matches k (Help newKeymap)"
        "\<not> Matches k (Filter newKeymap)" "\<not> Matches k (Add newKeymap)"
        "\<not> Matches k (Delete newKeymap)" "\<not> Matches k (Edit newKeymap)"
        by (auto simp: Matches_def newKeymap_def)
      from False nf n gl show ?thesis by (auto simp: updateListKeys_def)
    qed
    from applySelected_failure [OF it, where scope = scope and E = E] show ?thesis
      unfolding u f .
  qed
qed

lemma insertUser_result:
  assumes "seq s = seq (store w)" and "insertUser (insertFault E) n e s = (r, s1)"
  shows "case insertFailure E w of None \<Rightarrow> \<exists>j. r = Inr j | Some t \<Rightarrow> r = Inl t"
  using assms by (auto simp: insertUser_def insertFailure_def Let_def split: option.splits if_splits)

lemma updateFormKeys_failure:
  assumes "mode m \<noteq> modeList"
  shows "case failure E (Key k) m w of
           None \<Rightarrow> errMsg (fst (updateFormKeys L E k m w)) = errMsg m
         | Some t \<Rightarrow> errMsg (fst (updateFormKeys L E k m w)) = t \<and>
                     status (fst (updateFormKeys L E k m w)) = status m"
proof (cases "Type k = KeyEnter \<and> \<not> focus (form1 m)")
  case False
  have f: "failure E (Key k) m w = None" using False assms by (auto simp: failure_def)
  from False have "errMsg (fst (updateFormKeys L E k m w)) = errMsg m"
    by (auto simp: updateFormKeys_def)
  with f show ?thesis by simp
next
  case True
  then have nc: "\<not> Matches k (Clear newKeymap)"
    by (auto simp: Matches_def newKeymap_def keyString_def)
  show ?thesis
  proof (cases "validForm m")
    case False
    with True assms have f: "failure E (Key k) m w = Some ''invalid name/email''"
      by (simp add: failure_def)
    from False True nc have "updateFormKeys L E k m w = (m\<lparr>errMsg := ''invalid name/email''\<rparr>, CmdNil, w)"
      by (auto simp: updateFormKeys_def validForm_def Let_def)
    with f show ?thesis by simp
  next
    case v: True
    with True assms have f: "failure E (Key k) m w = insertFailure E w" by (simp add: failure_def)
    let ?st0 = "(if mode m = modeAdd then store w
                 else case SelectedItem (heap w) (list' m) of
                        None \<Rightarrow> store w
                      | Some it \<Rightarrow> snd (deleteUser (deleteFault E) (ID it) (store w)))"
    have sq: "seq ?st0 = seq (store w)"
      by (simp add: deleteUser_seq split: option.split)
    obtain r st1 where ins: "insertUser (insertFault E) (TrimSpace (val (form1 m)))
        (TrimSpace (val (form2 m))) ?st0 = (r, st1)"
      by (cases "insertUser (insertFault E) (TrimSpace (val (form1 m))) (TrimSpace (val (form2 m))) ?st0")
    have c: "case insertFailure E w of None \<Rightarrow> \<exists>j. r = Inr j | Some t \<Rightarrow> r = Inl t"
      using sq ins by (rule insertUser_result)
    from True submit_step [OF assms _ _ v, where k = k and L = L and E = E and w = w]
    have u: "updateFormKeys L E k m w =
         (case (r, st1) of
           (Inl err, st1) \<Rightarrow> (m\<lparr>errMsg := err\<rparr>, CmdNil, w\<lparr>store := st1\<rparr>)
         | (Inr _, st1) \<Rightarrow>
             (case reload L E m (w\<lparr>store := st1\<rparr>) of
                (m1, w1) \<Rightarrow> (m1\<lparr>mode := modeList, status := ''saved''\<rparr>, CmdNil, w1)))"
      using ins by (simp add: Let_def)
    show ?thesis
    proof (cases "insertFailure E w")
      case None
      with c obtain j where "r = Inr j" by auto
      with u have "errMsg (fst (updateFormKeys L E k m w)) = errMsg m"
        by (simp add: case_prod_beta reload_errMsg)
      with f None show ?thesis by simp
    next
      case (Some t)
      with c have "r = Inl t" by simp
      with u f Some show ?thesis by simp
    qed
  qed
qed

section \<open>Properties\<close>

subsection \<open>The view after an action\<close>









text \<open>
  The corpus after that filter edit, next to the one the session started with.
\<close>

lemma filter_edit_overwrites_corpus:
  "map Name (elems (heap (snd start)) (all (fuzzy (fst start)))) = [''Alice'', ''Bob'', ''Carl''] \<and>
   map Name (elems (heap (snd typedB)) (view (fuzzy (fst typedB)))) = [''Bob''] \<and>
   map Name (elems (heap (snd typedB)) (all (fuzzy (fst typedB)))) = [''Bob'', ''Bob'', ''Carl'']"
  by code_simp










subsection \<open>Store errors\<close>

text \<open>
  C2.  Every store error during an action should reach \<open>errMsg\<close> and stop the action.
  Here the database fails while the user deletes the selected identity: the errors
  of \<open>deleteUser\<close> and of \<open>allUsers\<close> are both discarded, \<open>errMsg\<close> stays empty, the
  status reads \<open>deleted\<close>, no row was deleted, and the list shown is empty.
\<close>

theorem delete_drops_store_errors:
  "errMsg (fst start) = [] \<and> map ID (rows (store (snd start))) = [1, 2, 3] \<and>
   fst failedDelete = fst (Update stdLib ioFaults (Key (press KeyBackspace)) (fst start) (snd start)) \<and>
   errMsg (fst failedDelete) = [] \<and> status (fst failedDelete) = ''deleted'' \<and>
   map ID (rows (store (snd failedDelete))) = [1, 2, 3] \<and>
   elems (heap (snd failedDelete)) (view (fuzzy (fst failedDelete))) = []"
  by code_simp

subsection \<open>The error message\<close>

text \<open>
  C3, as stated, fails.  A submit of the empty add form sets \<open>errMsg\<close> and leaves the
  status; the next action, esc, cancels the form and sets the status, and \<open>errMsg\<close> is
  what it was.
\<close>

theorem errMsg_survives_new_action_counterexample:
  "errMsg (fst failedAdd) = ''invalid name/email'' \<and> mode (fst failedAdd) = modeAdd \<and>
   status (fst failedAdd) = status (fst addOpen) \<and>
   fst cancelled = fst (Update stdLib noFaults (Key (press KeyEsc)) (fst failedAdd) (snd failedAdd)) \<and>
   status (fst cancelled) = ''cancelled'' \<and> mode (fst cancelled) = modeList \<and>
   errMsg (fst cancelled) = ''invalid name/email''"
  by code_simp

text \<open>
  C3, amended.  No event clears \<open>errMsg\<close>.  When the action an event asks for
  completes, or the event asks for none, \<open>errMsg\<close> is left as it was.  When the
  action fails (an invalid form, a failed insert, a local apply outside a repository, a
  failed \<open>git config\<close> run), \<open>errMsg\<close> becomes the text of that failure and the status
  is left as it was.
\<close>

theorem errMsg_changes_only_on_failure:
  "case failure E msg m w of
     None \<Rightarrow> errMsg (fst (Update L E msg m w)) = errMsg m
   | Some t \<Rightarrow> errMsg (fst (Update L E msg m w)) = t \<and>
               status (fst (Update L E msg m w)) = status m"
proof (cases msg)
  case (WindowSizeMsg wd ht)
  then show ?thesis by (simp add: Update_def failure_def)
next
  case (Key k)
  show ?thesis
  proof (cases "mode m = modeList")
    case True
    then have u: "Update L E (Key k) m w = updateListKeys L E k m w"
      by (simp add: Update_def)
    show ?thesis unfolding Key u by (rule updateListKeys_failure [OF True])
  next
    case False
    then have u: "Update L E (Key k) m w = updateFormKeys L E k m w"
      by (cases "mode m") (simp_all add: Update_def)
    show ?thesis unfolding Key u by (rule updateFormKeys_failure [OF False])
  qed
qed

lemma addOpen_fails:
  "failure noFaults (Key (press KeyEnter)) (fst addOpen) (snd addOpen) = Some ''invalid name/email''"
  by code_simp

lemma failedAdd_cancel:
  "failure noFaults (Key (press KeyEsc)) (fst failedAdd) (snd failedAdd) = None"
  by code_simp

lemma failedAdd_errMsg: "errMsg (fst addOpen) = []" "errMsg (fst failedAdd) = ''invalid name/email''"
  by code_simp+

theorem errMsg_changes_only_on_failure_witness:
  "errMsg (fst addOpen) = [] \<and>
   errMsg (fst (Update stdLib noFaults (Key (press KeyEnter)) (fst addOpen) (snd addOpen)))
     = ''invalid name/email'' \<and>
   status (fst (Update stdLib noFaults (Key (press KeyEnter)) (fst addOpen) (snd addOpen)))
     = status (fst addOpen) \<and>
   errMsg (fst (Update stdLib noFaults (Key (press KeyEsc)) (fst failedAdd) (snd failedAdd)))
     = ''invalid name/email''"
  using errMsg_changes_only_on_failure
      [where E = noFaults and msg = "Key (press KeyEnter)" and m = "fst addOpen"
         and w = "snd addOpen" and L = stdLib]
    errMsg_changes_only_on_failure
      [where E = noFaults and msg = "Key (press KeyEsc)" and m = "fst failedAdd"
         and w = "snd failedAdd" and L = stdLib]
  by (simp add: addOpen_fails failedAdd_cancel failedAdd_errMsg)

subsection \<open>Keys while filtering\<close>

text \<open>
  C4.  While the filter is active, a typed character should be appended to the query
  and backspace should remove one.  Here the filter is focused and holds \<open>b\<close>: backspace
  matches the delete binding, so it deletes the selected identity (Bob) from the
  store and leaves the text of the filter alone; and the typed character \<open>q\<close> matches
  the quit binding, which is tested before the filter, and ends the session.
\<close>

theorem backspace_while_filtering_deletes:
  "mode (fst typedB) = modeList \<and> focus (filter' (fst typedB)) \<and>
   val (filter' (fst typedB)) = ''b'' \<and>
   map Name (rows (store (snd typedB))) = [''Bob'', ''Alice'', ''Carl''] \<and>
   fst deletedB = fst (Update stdLib noFaults (Key (press KeyBackspace)) (fst typedB) (snd typedB)) \<and>
   val (filter' (fst deletedB)) = ''b'' \<and> query (fuzzy (fst deletedB)) = [] \<and>
   map Name (rows (store (snd deletedB))) = [''Alice'', ''Carl''] \<and>
   Update stdLib noFaults (Key (runes ''q'')) (fst typedB) (snd typedB) = (fst typedB, CmdQuit, snd typedB)"
  by code_simp

subsection \<open>Editing an identity\<close>

text \<open>
  C5.  A successful submit of the edit form deletes the row of the edited identity
  and inserts the trimmed pair: afterwards no row has the id of the edited identity,
  and exactly one row holds the trimmed pair, a new row with a fresh id unless the
  pair was already stored in another row, in which case the insert does nothing.
\<close>

theorem edit_submit_replaces_row:
  assumes "mode m = modeEdit" and "Type k = KeyEnter" and "\<not> focus (form1 m)" and "validForm m"
    and "SelectedItem (heap w) (list' m) = Some it" and "it \<in> set (rows (store w))"
    and "storeOk (store w)" and "seq (store w) < maxInt64"
    and "deleteFault E = None" and "insertFault E = None"
    and "Update L E (Key k) m w = (m', c, w')"
  shows "rows (store w') =
           (if hasPair (TrimSpace (val (form1 m))) (TrimSpace (val (form2 m)))
                 (filter (\<lambda>u. ID u \<noteq> ID it) (rows (store w)))
            then filter (\<lambda>u. ID u \<noteq> ID it) (rows (store w))
            else filter (\<lambda>u. ID u \<noteq> ID it) (rows (store w)) @
                 [\<lparr>ID = seq (store w) + 1, Name = TrimSpace (val (form1 m)),
                   Email = TrimSpace (val (form2 m))\<rparr>]) \<and>
         ID it \<notin> set (map ID (rows (store w'))) \<and>
         countPair (TrimSpace (val (form1 m))) (TrimSpace (val (form2 m))) (rows (store w')) = 1 \<and>
         mode m' = modeList \<and> status m' = ''saved'' \<and> errMsg m' = errMsg m"
proof -
  let ?n = "TrimSpace (val (form1 m))" and ?e = "TrimSpace (val (form2 m))"
  let ?rest = "filter (\<lambda>u. ID u \<noteq> ID it) (rows (store w))"
  let ?st0 = "(store w)\<lparr>rows := ?rest\<rparr>"
  have ne: "mode m \<noteq> modeList" using assms(1) by simp
  have idle: "ID it \<le> seq (store w)"
    using assms(6,7) by (auto simp: storeOk_def list_all_iff)
  have d0: "distinct (map (\<lambda>u. (Name u, Email u)) (rows ?st0))"
    using assms(7) by (simp add: storeOk_def distinct_map_filter)
  have q0: "seq ?st0 < maxInt64" using assms(8) by simp
  obtain r st1 where ins: "insertUser None ?n ?e ?st0 = (r, st1)"
    by (cases "insertUser None ?n ?e ?st0")
  from insertUser_rows [OF d0 q0 ins]
  have cnt: "countPair ?n ?e (rows st1) = 1" by (simp add: TrimSpace_idem)
  have rows1: "rows st1 = (if hasPair ?n ?e ?rest then ?rest
                           else ?rest @ [\<lparr>ID = seq (store w) + 1, Name = ?n, Email = ?e\<rparr>])"
    and isr: "\<exists>j. r = Inr j"
    using ins q0 by (auto simp: insertUser_def Let_def TrimSpace_idem split: if_splits)
  then obtain j where r: "r = Inr j" by blast
  obtain m1 w1 where rl: "reload L E m (w\<lparr>store := st1\<rparr>) = (m1, w1)"
    by (cases "reload L E m (w\<lparr>store := st1\<rparr>)")
  have "Update L E (Key k) m w = updateFormKeys L E k m w"
    using assms(1) by (simp add: Update_def)
  with assms(11) submit_step [OF ne assms(2,3,4), of L E w] assms(1,5,9,10) ins r rl
  have m': "m' = m1\<lparr>mode := modeList, status := ''saved''\<rparr>" and w': "w' = w1"
    by (simp_all add: Let_def deleteUser_ok)
  from reload_post [OF rl] have st: "store w' = st1" and em: "errMsg m1 = errMsg m"
    by (simp_all add: w')
  have "ID it \<notin> set (map ID (rows st1))"
    using idle by (auto simp: rows1)
  with st rows1 cnt em show ?thesis by (simp add: m')
qed

lemma editing_ready: "mode (fst editing) = modeEdit" "Type (press KeyEnter) = KeyEnter"
  "\<not> focus (form1 (fst editing))" "validForm (fst editing)"
  "SelectedItem (heap (snd editing)) (list' (fst editing)) =
     Some \<lparr>ID = 2, Name = ''Alice'', Email = ''alice@x.org''\<rparr>"
  "\<lparr>ID = 2, Name = ''Alice'', Email = ''alice@x.org''\<rparr> \<in> set (rows (store (snd editing)))"
  "storeOk (store (snd editing))" "seq (store (snd editing)) < maxInt64"
  "deleteFault noFaults = None" "insertFault noFaults = None"
  by code_simp+

lemma editing_submit: "Update stdLib noFaults (Key (press KeyEnter)) (fst editing) (snd editing) =
   (fst (Update stdLib noFaults (Key (press KeyEnter)) (fst editing) (snd editing)),
    fst (snd (Update stdLib noFaults (Key (press KeyEnter)) (fst editing) (snd editing))),
    snd (snd (Update stdLib noFaults (Key (press KeyEnter)) (fst editing) (snd editing))))"
  by simp

lemma editing_values: "rows (store (snd editing)) =
     [\<lparr>ID = 1, Name = ''Bob'', Email = ''bob@x.org''\<rparr>,
      \<lparr>ID = 2, Name = ''Alice'', Email = ''alice@x.org''\<rparr>,
      \<lparr>ID = 3, Name = ''Carl'', Email = ''carl@x.org''\<rparr>]"
  "seq (store (snd editing)) = 3"
  "TrimSpace (val (form1 (fst editing))) = ''Alicex''"
  "TrimSpace (val (form2 (fst editing))) = ''alice@x.org''"
  by code_simp+

theorem edit_submit_replaces_row_witness:
  "mode (fst editing) = modeEdit \<and> \<not> focus (form1 (fst editing)) \<and> validForm (fst editing) \<and>
   SelectedItem (heap (snd editing)) (list' (fst editing)) =
     Some \<lparr>ID = 2, Name = ''Alice'', Email = ''alice@x.org''\<rparr> \<and>
   storeOk (store (snd editing)) \<and>
   rows (store (snd (snd (Update stdLib noFaults (Key (press KeyEnter)) (fst editing) (snd editing))))) =
     [\<lparr>ID = 1, Name = ''Bob'', Email = ''bob@x.org''\<rparr>,
      \<lparr>ID = 3, Name = ''Carl'', Email = ''carl@x.org''\<rparr>,
      \<lparr>ID = 4, Name = ''Alicex'', Email = ''alice@x.org''\<rparr>]"
  using edit_submit_replaces_row [OF editing_ready editing_submit] editing_ready
  by (simp add: editing_values hasPair_def)

subsection \<open>Form validation\<close>

text \<open>
  C7.  A submit of the add or edit form with a name that is empty after trimming, an
  email that is empty after trimming, or an email buffer without \<open>@\<close> sets \<open>errMsg\<close> and
  changes nothing else: the mode, both buffers and the store are what they were.
\<close>

theorem invalid_submit_rejected:
  assumes "mode m \<noteq> modeList" and "Type k = KeyEnter" and "\<not> focus (form1 m)"
    and "TrimSpace (val (form1 m)) = [] \<or> TrimSpace (val (form2 m)) = [] \<or>
         \<not> Contains (val (form2 m)) ''@''"
  shows "Update L E (Key k) m w = (m\<lparr>errMsg := ''invalid name/email''\<rparr>, CmdNil, w)"
proof -
  from assms(2) have nc: "\<not> Matches k (Clear newKeymap)"
    by (auto simp: Matches_def newKeymap_def keyString_def)
  have "\<not> Contains (val (form2 m)) ''@'' \<Longrightarrow> \<not> Contains (TrimSpace (val (form2 m))) ''@''"
    using set_TrimSpace [of "val (form2 m)"] by (auto simp: Contains_at)
  with assms(4) have inv: "TrimSpace (val (form1 m)) = [] \<or> TrimSpace (val (form2 m)) = [] \<or>
      \<not> Contains (TrimSpace (val (form2 m))) ''@''" by blast
  have "Update L E (Key k) m w = updateFormKeys L E k m w"
    using assms(1) by (cases "mode m") (simp_all add: Update_def)
  with assms(2,3) nc inv show ?thesis
    by (simp add: updateFormKeys_def Let_def)
qed

lemma failedAdd_ready: "mode (fst failedAdd) \<noteq> modeList" "Type (press KeyEnter) = KeyEnter"
  "\<not> focus (form1 (fst failedAdd))"
  "TrimSpace (val (form1 (fst failedAdd))) = [] \<or> TrimSpace (val (form2 (fst failedAdd))) = [] \<or>
         \<not> Contains (val (form2 (fst failedAdd))) ''@''"
  by code_simp+

theorem invalid_submit_rejected_witness:
  "mode (fst failedAdd) = modeAdd \<and> \<not> focus (form1 (fst failedAdd)) \<and>
   TrimSpace (val (form1 (fst failedAdd))) = [] \<and>
   Update stdLib noFaults (Key (press KeyEnter)) (fst failedAdd) (snd failedAdd) =
     ((fst failedAdd)\<lparr>errMsg := ''invalid name/email''\<rparr>, CmdNil, snd failedAdd)"
proof -
  have "mode (fst failedAdd) = modeAdd" "TrimSpace (val (form1 (fst failedAdd))) = []"
    by code_simp+
  with invalid_submit_rejected [OF failedAdd_ready, of stdLib noFaults "snd failedAdd"]
    failedAdd_ready show ?thesis
    by simp
qed

subsection \<open>Applying to the local scope\<close>

text \<open>
  C8.  A local apply (enter, or \<open>l\<close> outside the filter) on a selected identity while
  the working directory is not inside a repository sets \<open>errMsg\<close> and changes nothing
  else: the only subprocess run is the check \<open>git rev-parse\<close>, no \<open>git config\<close> is
  run, and the store, the configuration and the rest of the session are what they were.
\<close>

theorem local_apply_outside_repo:
  assumes "mode m = modeList"
    and "Type k = KeyEnter \<or> (keyString k = ''l'' \<and> \<not> focus (filter' m))"
    and "SelectedItem (heap w) (list' m) = Some it" and "\<not> inRepo E"
  shows "Update L E (Key k) m w =
           (m\<lparr>errMsg := ''not inside a git repo (local set aborted)''\<rparr>, CmdNil,
            w\<lparr>runs := runs w @ [[''rev-parse'', ''--is-inside-work-tree'']]\<rparr>)"
proof -
  have a: "applySelected E ''local'' m w =
           (m\<lparr>errMsg := ''not inside a git repo (local set aborted)''\<rparr>, CmdNil,
            w\<lparr>runs := runs w @ [[''rev-parse'', ''--is-inside-work-tree'']]\<rparr>)"
    using assms(3,4) by (simp add: applySelected_def gitInRepo_def)
  have u: "Update L E (Key k) m w = updateListKeys L E k m w"
    using assms(1) by (simp add: Update_def)
  from assms(2) show ?thesis
  proof
    assume e: "Type k = KeyEnter"
    then have "\<not> Matches k (Quit newKeymap)" "\<not> Matches k (Help newKeymap)"
      "\<not> Matches k (Filter newKeymap)"
      by (auto simp: Matches_def newKeymap_def keyString_def)
    with e a u show ?thesis by (simp add: updateListKeys_def)
  next
    assume l: "keyString k = ''l'' \<and> \<not> focus (filter' m)"
    then have t: "Type k \<noteq> KeyEnter" "Type k \<noteq> KeyEsc"
      by (auto simp: keyString_def split: if_splits)
    from l have n: "\<not> Matches k (Quit newKeymap)" "\<not> Matches k (Help newKeymap)"
      "\<not> Matches k (Filter newKeymap)" "\<not> Matches k (Add newKeymap)"
      "\<not> Matches k (Delete newKeymap)" "\<not> Matches k (Edit newKeymap)"
      "\<not> Matches k (Global newKeymap)" "Matches k (Local newKeymap)"
      by (simp_all add: Matches_def newKeymap_def)
    with l t a u show ?thesis by (simp add: updateListKeys_def)
  qed
qed

lemma start_local: "mode (fst start) = modeList"
  "Type (press KeyEnter) = KeyEnter \<or> (keyString (press KeyEnter) = ''l'' \<and> \<not> focus (filter' (fst start)))"
  "SelectedItem (heap (snd start)) (list' (fst start)) = Some \<lparr>ID = 2, Name = ''Alice'', Email = ''alice@x.org''\<rparr>"
  "\<not> inRepo outside"
  by code_simp+

theorem local_apply_outside_repo_witness:
  "mode (fst start) = modeList \<and> \<not> inRepo outside \<and>
   SelectedItem (heap (snd start)) (list' (fst start)) = Some \<lparr>ID = 2, Name = ''Alice'', Email = ''alice@x.org''\<rparr> \<and>
   Update stdLib outside (Key (press KeyEnter)) (fst start) (snd start) =
           ((fst start)\<lparr>errMsg := ''not inside a git repo (local set aborted)''\<rparr>, CmdNil,
            (snd start)\<lparr>runs := runs (snd start) @ [[''rev-parse'', ''--is-inside-work-tree'']]\<rparr>)"
  using local_apply_outside_repo [OF start_local, of stdLib] start_local by simp

subsection \<open>The filter\<close>






subsection \<open>The store\<close>

text \<open>
  C6.  Store insert trims both fields, and inserting the same trimmed (name, email) pair
  a second time performs no write and signals no error: for every name and email, an
  insert followed by an insert of the same pair leaves exactly one stored row with the
  trimmed pair.  Both inserts run without a database fault and below the end of the
  rowid range.
\<close>

theorem insertUser_idempotent:
  assumes "storeOk s" and "seq s + 1 < maxInt64"
  shows "case insertUser None name email s of
           (r1, s1) \<Rightarrow>
             (case insertUser None name email s1 of
                (r2, s2) \<Rightarrow>
                  r1 = Inr (lastInsertId s1) \<and> r2 = Inr (lastInsertId s1) \<and>
                  rows s2 = rows s1 \<and>
                  countPair (TrimSpace name) (TrimSpace email) (rows s2) = 1)"
proof -
  obtain r1 s1 where i1: "insertUser None name email s = (r1, s1)"
    by (cases "insertUser None name email s")
  from assms have d: "distinct (map (\<lambda>u. (Name u, Email u)) (rows s))" and q: "seq s < maxInt64"
    by (simp_all add: storeOk_def)
  from insertUser_rows [OF d q i1]
  have p: "hasPair (TrimSpace name) (TrimSpace email) (rows s1)"
    and c: "countPair (TrimSpace name) (TrimSpace email) (rows s1) = 1"
    and q1: "seq s1 < maxInt64"
    using assms(2) by simp_all
  have r1: "r1 = Inr (lastInsertId s1)"
    using i1 q by (cases "hasPair (TrimSpace name) (TrimSpace email) (rows s)")
      (auto simp: insertUser_duplicate insertUser_fresh)
  show ?thesis
    unfolding i1 using insertUser_duplicate [OF p q1] c r1 by simp
qed

theorem insertUser_idempotent_witness:
  "storeOk demoStore \<and> seq demoStore + 1 < maxInt64 \<and>
   (case insertUser None '' Bo '' ''bo@x.org'' demoStore of
      (r1, s1) \<Rightarrow>
        (case insertUser None '' Bo '' ''bo@x.org'' s1 of
           (r2, s2) \<Rightarrow>
             r1 = Inr (lastInsertId s1) \<and> r2 = Inr (lastInsertId s1) \<and>
             rows s2 = rows s1 \<and>
             countPair (TrimSpace '' Bo '') (TrimSpace ''bo@x.org'') (rows s2) = 1))"
proof -
  have a: "storeOk demoStore" by (simp add: storeOk_def demoStore_def)
  have b: "seq demoStore + 1 < maxInt64" by (simp add: demoStore_def maxInt64_def)
  from insertUser_idempotent [OF a b, of "'' Bo ''" "''bo@x.org''"] a b show ?thesis by simp
qed

text \<open>
  C10.  When \<open>insertUser\<close> is called with a pair that already exists, the write is
  ignored, no error is signalled, and the id returned is the connection's most recent
  insert id, whatever the id of the existing row: the caller can neither tell the
  ignored duplicate from a fresh insert nor learn the id of the existing row.
\<close>

theorem insertUser_duplicate_returns_last_insert_id:
  assumes "hasPair (TrimSpace name) (TrimSpace email) (rows s)" and "seq s < maxInt64"
  shows "fst (insertUser None name email s) = Inr (lastInsertId s) \<and>
         rows (snd (insertUser None name email s)) = rows s \<and>
         lastInsertId (snd (insertUser None name email s)) = lastInsertId s"
  using insertUser_duplicate [OF assms] by simp

theorem insertUser_duplicate_returns_last_insert_id_witness:
  "hasPair (TrimSpace ''Ann '') (TrimSpace ''ann@x.org'') (rows demoStore) \<and>
   seq demoStore < maxInt64 \<and>
   fst (insertUser None ''Ann '' ''ann@x.org'' demoStore) = Inr 0 \<and>
   map ID (rows (snd (insertUser None ''Ann '' ''ann@x.org'' demoStore))) = [7]"
proof -
  have t: "TrimSpace ''Ann '' = ''Ann''" "TrimSpace ''ann@x.org'' = ''ann@x.org''"
    by code_simp+
  have a: "hasPair (TrimSpace ''Ann '') (TrimSpace ''ann@x.org'') (rows demoStore)"
    unfolding t by (simp add: hasPair_def demoStore_def)
  have b: "seq demoStore < maxInt64" by (simp add: demoStore_def maxInt64_def)
  from insertUser_duplicate_returns_last_insert_id [OF a b] a b show ?thesis
    by (simp add: demoStore_def)
qed

end
